theory Spec2Isabelle
  imports Complex_Main
begin

section \<open>Strings\<close>

text \<open>
  A Python \<open>str\<close> is a sequence of Unicode code points, and the words handled here are
  Persian and Arabic, outside the 8-bit range of \<^typ>\<open>char\<close>.  A character is therefore
  modelled by its code point, and \<open>len\<close> is \<^const>\<open>length\<close>.  A Python float is modelled
  by an exact real number.
\<close>

type_synonym uchar = nat
type_synonym ustring = "nat list"

definition ascii :: "string \<Rightarrow> ustring" where
  "ascii s = map of_char s"

text \<open>Truthiness of an \<open>Optional[str]\<close>: neither \<open>None\<close> nor the empty string.\<close>

fun truthy :: "ustring option \<Rightarrow> bool" where
  "truthy None = False"
| "truthy (Some w) = (w \<noteq> [])"

text \<open>The characters on which \<open>str.split()\<close> without argument splits (\<open>str.isspace\<close>).\<close>

definition is_space :: "uchar \<Rightarrow> bool" where
  "is_space c \<longleftrightarrow>
     (9 \<le> c \<and> c \<le> 13) \<or> (28 \<le> c \<and> c \<le> 32) \<or> c = 133 \<or> c = 160 \<or> c = 5760 \<or>
     (8192 \<le> c \<and> c \<le> 8202) \<or> c = 8232 \<or> c = 8233 \<or> c = 8239 \<or> c = 8287 \<or> c = 12288"

text \<open>\<open>text.split()\<close>: the maximal runs of non-whitespace characters, left to right.\<close>

fun split_from :: "ustring \<Rightarrow> ustring \<Rightarrow> ustring list" where
  "split_from cur [] = (if cur = [] then [] else [cur])"
| "split_from cur (c # cs) =
     (if is_space c then (if cur = [] then split_from [] cs else cur # split_from [] cs)
      else split_from (cur @ [c]) cs)"

definition str_split :: "ustring \<Rightarrow> ustring list" where
  "str_split text = split_from [] text"

text \<open>\<open>sep.join(words)\<close>.\<close>

fun str_join :: "ustring \<Rightarrow> ustring list \<Rightarrow> ustring" where
  "str_join sep [] = []"
| "str_join sep [w] = w"
| "str_join sep (w # v # ws) = w @ sep @ str_join sep (v # ws)"

text \<open>The slice \<open>xs[:n]\<close>; a negative \<open>n\<close> counts from the end.\<close>

definition slice_to :: "int \<Rightarrow> 'a list \<Rightarrow> 'a list" where
  "slice_to n xs = (if 0 \<le> n then take (nat n) xs else take (nat (int (length xs) + n)) xs)"

section \<open>The confusion table (post\_process\_enhanced.py)\<close>

text \<open>
  \<open>CONFUSION_MATRIX\<close>, in the order of the source.  Keys and values are Python strings;
  every key is one character long, the second value of lam (1604) is the two-character
  string lam-alef.
\<close>

definition CONFUSION_MATRIX :: "(ustring \<times> ustring list) list" where
  "CONFUSION_MATRIX =
   [([1576], [[1662], [1578], [1579], [1606], [1740]]),
    ([1662], [[1576], [1578], [1579], [1670]]),
    ([1578], [[1576], [1662], [1579], [1606]]),
    ([1579], [[1576], [1662], [1578]]),
    ([1580], [[1670], [1581], [1582]]),
    ([1670], [[1580], [1581], [1582]]),
    ([1581], [[1580], [1670], [1582]]),
    ([1582], [[1580], [1670], [1581]]),
    ([1583], [[1584]]),
    ([1584], [[1583]]),
    ([1585], [[1586], [1688], [1608]]),
    ([1586], [[1585], [1688]]),
    ([1688], [[1586], [1585]]),
    ([1587], [[1588]]),
    ([1588], [[1587]]),
    ([1589], [[1590]]),
    ([1590], [[1589]]),
    ([1591], [[1592]]),
    ([1592], [[1591]]),
    ([1593], [[1594]]),
    ([1594], [[1593]]),
    ([1601], [[1602]]),
    ([1602], [[1601]]),
    ([1705], [[1711], [1603]]),
    ([1711], [[1705], [1603]]),
    ([1604], [[1575], [1604, 1575]]),
    ([1605], [[1606]]),
    ([1606], [[1576], [1578], [1579], [1605], [1740]]),
    ([1608], [[1585], [1572]]),
    ([1607], [[1577], [1728], [1726]]),
    ([1740], [[1610], [1609], [1574], [1576], [1578], [1606]]),
    ([1603], [[1705], [1711]]),
    ([1610], [[1740], [1609]]),
    ([1577], [[1607], [1728]]),
    ([1571], [[1575], [1573], [1570]]),
    ([1573], [[1575], [1571], [1570]]),
    ([1570], [[1575], [1571], [1573]]),
    ([1572], [[1608], [1569]]),
    ([1574], [[1740], [1569]]),
    ([1780], [[1781], [52]]),
    ([1781], [[1780], [53]]),
    ([1782], [[54]]),
    ([1636], [[1637], [1780], [1781]]),
    ([1637], [[1636], [1780], [1781]]),
    ([1638], [[1782], [54]])]"

text \<open>\<open>d.get(k, [])\<close> on a dictionary of lists, and \<open>d[k]\<close> on a \<open>defaultdict\<close>.\<close>

fun or_empty :: "'v list option \<Rightarrow> 'v list" where
  "or_empty None = []"
| "or_empty (Some vs) = vs"

definition get_list :: "('k \<times> 'v list) list \<Rightarrow> 'k \<Rightarrow> 'v list" where
  "get_list d k = or_empty (map_of d k)"

text \<open>
  A Python set is kept as a list without repetitions, in insertion order; \<open>s.add(x)\<close>:
\<close>

definition set_add :: "'a \<Rightarrow> 'a list \<Rightarrow> 'a list" where
  "set_add x s = (if x \<in> set s then s else s @ [x])"

text \<open>\<open>d[k].add(v)\<close> on a \<open>defaultdict(set)\<close>: a missing key starts from the empty set.\<close>

fun dd_add :: "'k \<Rightarrow> 'v \<Rightarrow> ('k \<times> 'v list) list \<Rightarrow> ('k \<times> 'v list) list" where
  "dd_add k v [] = [(k, [v])]"
| "dd_add k v ((k', s) # d) =
     (if k' = k then (k', set_add v s) # d else (k', s) # dd_add k v d)"

text \<open>The module-level loop that derives \<open>OCR_MIGHT_PRODUCE\<close> from the table.\<close>

definition add_reverse_entries ::
    "ustring \<times> ustring list \<Rightarrow> (ustring \<times> ustring list) list \<Rightarrow> (ustring \<times> ustring list) list" where
  "add_reverse_entries item d =
     (case item of (correct_char, confused_chars) \<Rightarrow>
        dd_add correct_char correct_char
          (fold (\<lambda>confused d'. dd_add confused correct_char d') confused_chars d))"

definition build_reverse :: "(ustring \<times> ustring list) list \<Rightarrow> (ustring \<times> ustring list) list" where
  "build_reverse matrix = fold add_reverse_entries matrix []"

definition OCR_MIGHT_PRODUCE :: "(ustring \<times> ustring list) list" where
  "OCR_MIGHT_PRODUCE = build_reverse CONFUSION_MATRIX"

text \<open>Every string that occurs in the table, as a key or as a confusable value.\<close>

definition table_strings :: "(ustring \<times> ustring list) list \<Rightarrow> ustring set" where
  "table_strings matrix = set (map fst matrix) \<union> set (concat (map snd matrix))"

section \<open>Confusion-weighted edit distance\<close>

text \<open>
  \<open>confusion_distance\<close> fills the table \<open>dp\<close>, a list of rows, in place.  The cost of
  substituting \<open>c1\<close> by \<open>c2\<close> is the \<open>if\<close>/\<open>elif\<close>/\<open>else\<close> of the inner loop; a
  character is a one-character string when it is looked up in the table.
\<close>

definition substitution_cost :: "uchar \<Rightarrow> uchar \<Rightarrow> real" where
  "substitution_cost c1 c2 =
     (if c1 = c2 then 0
      else if [c2] \<in> set (get_list CONFUSION_MATRIX [c1]) \<or> [c1] \<in> set (get_list CONFUSION_MATRIX [c2])
      then 0.3 else 1)"

text \<open>\<open>dp[i][j] = v\<close>.\<close>

definition set_cell :: "real list list \<Rightarrow> nat \<Rightarrow> nat \<Rightarrow> real \<Rightarrow> real list list" where
  "set_cell dp i j v = dp[i := (dp ! i)[j := v]]"

text \<open>\<open>[[0.0] * (len2 + 1) for _ in range(len1 + 1)]\<close>.\<close>

definition new_table :: "nat \<Rightarrow> nat \<Rightarrow> real list list" where
  "new_table len1 len2 = replicate (len1 + 1) (replicate (len2 + 1) 0)"

text \<open>
  The two base-case loops: \<open>dp[i][0] = i * 1.0\<close> for every row, then \<open>dp[0][j] = j * 1.0\<close>
  for every column.
\<close>

definition base_cases :: "nat \<Rightarrow> nat \<Rightarrow> real list list \<Rightarrow> real list list" where
  "base_cases len1 len2 dp =
     fold (\<lambda>j dp'. set_cell dp' 0 j (real j)) [0..<len2 + 1]
       (fold (\<lambda>i dp'. set_cell dp' i 0 (real i)) [0..<len1 + 1] dp)"

text \<open>The body of the inner loop, the inner loop over \<open>j\<close>, and the outer loop over \<open>i\<close>.\<close>

definition fill_cell :: "ustring \<Rightarrow> ustring \<Rightarrow> nat \<Rightarrow> nat \<Rightarrow> real list list \<Rightarrow> real list list" where
  "fill_cell word1 word2 i j dp =
     set_cell dp i j
       (min (dp ! (i - 1) ! j + 1)
         (min (dp ! i ! (j - 1) + 1)
              (dp ! (i - 1) ! (j - 1) + substitution_cost (word1 ! (i - 1)) (word2 ! (j - 1)))))"

definition fill_row :: "ustring \<Rightarrow> ustring \<Rightarrow> nat \<Rightarrow> real list list \<Rightarrow> real list list" where
  "fill_row word1 word2 i dp = fold (fill_cell word1 word2 i) [1..<length word2 + 1] dp"

definition fill_matrix :: "ustring \<Rightarrow> ustring \<Rightarrow> real list list \<Rightarrow> real list list" where
  "fill_matrix word1 word2 dp = fold (fill_row word1 word2) [1..<length word1 + 1] dp"

definition confusion_distance :: "ustring \<Rightarrow> ustring \<Rightarrow> real" where
  "confusion_distance word1 word2 =
     (if word1 = word2 then 0
      else if \<bar>int (length word1) - int (length word2)\<bar> > 3
        then real (max (length word1) (length word2))
      else fill_matrix word1 word2
             (base_cases (length word1) (length word2) (new_table (length word1) (length word2)))
           ! length word1 ! length word2)"

definition confusion_similarity :: "ustring \<Rightarrow> ustring \<Rightarrow> real" where
  "confusion_similarity word1 word2 =
     (if word1 = word2 then 100
      else if max (length word1) (length word2) = 0 then 100
      else max 0 (100 * (1 - confusion_distance word1 word2
                               / real (max (length word1) (length word2)))))"

text \<open>
  The recurrence that the table realises: \<open>cell w1 w2 i j\<close> is the cost of transforming the
  first \<open>i\<close> characters of \<open>w1\<close> into the first \<open>j\<close> characters of \<open>w2\<close>.  It is used in
  the proofs only; \<open>confusion_distance\<close> is defined through the table.
\<close>

fun cell :: "ustring \<Rightarrow> ustring \<Rightarrow> nat \<Rightarrow> nat \<Rightarrow> real" where
  "cell w1 w2 0 j = real j"
| "cell w1 w2 (Suc i) 0 = real (Suc i)"
| "cell w1 w2 (Suc i) (Suc j) =
     min (cell w1 w2 i (Suc j) + 1)
       (min (cell w1 w2 (Suc i) j + 1) (cell w1 w2 i j + substitution_cost (w1 ! i) (w2 ! j)))"

text \<open>The shape of the table: \<open>len1 + 1\<close> rows of \<open>len2 + 1\<close> cells.\<close>

definition table_ok :: "real list list \<Rightarrow> nat \<Rightarrow> nat \<Rightarrow> bool" where
  "table_ok dp n1 n2 \<longleftrightarrow> length dp = n1 + 1 \<and> (\<forall>a\<le>n1. length (dp ! a) = n2 + 1)"

section \<open>The enhanced post-processor (post\_process\_enhanced.py)\<close>

text \<open>
  The values stored in the debug dictionaries, and the dictionaries themselves.  The keys
  are the ASCII literals of the source.
\<close>

datatype pyval = PStr ustring | PFloat real | PInt int | PList "nat list" | PNone

type_synonym info = "string \<rightharpoonup> pyval"

type_synonym candidate = "ustring \<times> real \<times> info"

fun opt_str :: "ustring option \<Rightarrow> pyval" where
  "opt_str None = PNone"
| "opt_str (Some w) = PStr w"

text \<open>
  The fields of \<open>EnhancedPostProcessor\<close>.  \<open>word_freq\<close> is a \<open>Counter\<close> and \<open>bigrams\<close> a
  \<open>defaultdict(Counter)\<close>; both are association lists in insertion order.
\<close>

record processor =
  min_word_length :: int
  fuzzy_threshold :: real
  confusion_threshold :: real
  confidence_threshold :: real
  context_weight :: real
  dictionary :: "ustring set"
  word_freq :: "(ustring \<times> int) list"
  bigrams :: "(ustring \<times> (ustring \<times> int) list) list"
  total_bigrams :: int

text \<open>
  What the Python runtime and the optional third-party library decide, taken as parameters:
  \<^item> \<open>FUZZY_LIB\<close> is \<open>None\<close> when neither rapidfuzz nor fuzzywuzzy is installed; otherwise it
    holds \<open>process.extract(word, dictionary, scorer=fuzz.ratio, limit=n)\<close>, reduced to the
    two components \<open>match[0]\<close> and \<open>match[1]\<close> that the caller reads;
  \<^item> \<open>set_order\<close> is the order in which \<open>list(variants)\<close> enumerates a set (it depends on
    string hashing); it is applied to the elements in insertion order.
\<close>

record runtime =
  FUZZY_LIB :: "(ustring \<Rightarrow> ustring set \<Rightarrow> int \<Rightarrow> (ustring \<times> real) list) option"
  set_order :: "ustring list \<Rightarrow> ustring list"

text \<open>Reading a \<open>Counter\<close>: a missing key counts 0.\<close>

fun or_zero :: "int option \<Rightarrow> int" where
  "or_zero None = 0"
| "or_zero (Some n) = n"

definition count_of :: "('k \<times> int) list \<Rightarrow> 'k \<Rightarrow> int" where
  "count_of d k = or_zero (map_of d k)"

definition has_key :: "('k \<times> 'v) list \<Rightarrow> 'k \<Rightarrow> bool" where
  "has_key d k \<longleftrightarrow> k \<in> set (map fst d)"

subsection \<open>\<open>_normalize\<close> and \<open>get_context_score\<close>\<close>

definition is_arabic :: "uchar \<Rightarrow> bool" where
  "is_arabic c \<longleftrightarrow> 1536 \<le> c \<and> c \<le> 1791"

text \<open>
  \<open>re.sub(r'^[^K]+|[^K]+$', '', word)\<close> removes the leading and the trailing run of
  characters outside the class \<open>K\<close>.
\<close>

definition strip_edges :: "(uchar \<Rightarrow> bool) \<Rightarrow> ustring \<Rightarrow> ustring" where
  "strip_edges keep word =
     rev (dropWhile (\<lambda>c. \<not> keep c) (rev (dropWhile (\<lambda>c. \<not> keep c) word)))"

definition pp_normalize :: "processor \<Rightarrow> ustring \<Rightarrow> ustring option" where
  "pp_normalize P word =
     (if int (length (strip_edges is_arabic word)) \<ge> min_word_length P
      then Some (strip_edges is_arabic word) else None)"

text \<open>\<open>min(100, freq * mult)\<close> with \<open>freq = following[w] / max(1, sum(following.values()))\<close>.\<close>

definition ratio_score :: "(ustring \<times> int) list \<Rightarrow> ustring \<Rightarrow> real \<Rightarrow> real" where
  "ratio_score following w mult =
     min 100 (real_of_int (count_of following w)
                / real_of_int (max 1 (sum_list (map snd following))) * mult)"

text \<open>
  One bigram block of \<open>get_context_score\<close>, on the accumulators \<open>(score, count)\<close>: when
  \<open>first\<close> is a non-empty key of the table, \<open>count\<close> grows by one, and \<open>score\<close> grows by the
  ratio when \<open>second\<close> is a non-empty key of \<open>bigrams[first]\<close>.
\<close>

fun second_score :: "(ustring \<times> int) list \<Rightarrow> ustring option \<Rightarrow> real \<Rightarrow> real" where
  "second_score following None mult = 0"
| "second_score following (Some w) mult =
     (if w \<noteq> [] \<and> has_key following w then ratio_score following w mult else 0)"

fun bigram_block ::
    "(ustring \<times> (ustring \<times> int) list) list \<Rightarrow> ustring option \<Rightarrow> ustring option \<Rightarrow> real \<times> int \<Rightarrow> real \<times> int" where
  "bigram_block table None second (score, count) = (score, count)"
| "bigram_block table (Some f) second (score, count) =
     (if f \<noteq> [] \<and> has_key table f
      then (score + second_score (get_list table f) second 500, count + 1)
      else (score, count))"

text \<open>\<open>self._normalize(word) if word else None\<close>, for an optional word.\<close>

fun normalize_opt :: "(ustring \<Rightarrow> ustring option) \<Rightarrow> ustring option \<Rightarrow> ustring option" where
  "normalize_opt nrm None = None"
| "normalize_opt nrm (Some w) = (if w \<noteq> [] then nrm w else None)"

definition prev_block ::
    "processor \<Rightarrow> ustring option \<Rightarrow> ustring option \<Rightarrow> real \<times> int \<Rightarrow> real \<times> int" where
  "prev_block P prev_word word_norm acc =
     (if truthy prev_word
      then bigram_block (bigrams P) (normalize_opt (pp_normalize P) prev_word) word_norm acc
      else acc)"

definition next_block ::
    "processor \<Rightarrow> ustring option \<Rightarrow> ustring option \<Rightarrow> real \<times> int \<Rightarrow> real \<times> int" where
  "next_block P next_word word_norm acc =
     (if truthy next_word \<and> truthy word_norm
      then bigram_block (bigrams P) word_norm (normalize_opt (pp_normalize P) next_word) acc
      else acc)"

text \<open>\<open>score / max(1, count) if count > 0 else 50.0\<close>.\<close>

fun average_or_neutral :: "real \<times> int \<Rightarrow> real" where
  "average_or_neutral (score, count) =
     (if count > 0 then score / real_of_int (max 1 count) else 50)"

definition get_context_score ::
    "processor \<Rightarrow> ustring option \<Rightarrow> ustring \<Rightarrow> ustring option \<Rightarrow> real" where
  "get_context_score P prev_word word next_word =
     (if total_bigrams P = 0 then 50
      else average_or_neutral
             (next_block P next_word (normalize_opt (pp_normalize P) (Some word))
               (prev_block P prev_word (normalize_opt (pp_normalize P) (Some word)) (0, 0))))"

subsection \<open>\<open>generate_confusion_variants\<close>\<close>

text \<open>\<open>word[:i] + replacement + word[i+1:]\<close>.\<close>

definition substitute :: "ustring \<Rightarrow> nat \<Rightarrow> ustring \<Rightarrow> ustring" where
  "substitute word i replacement = take i word @ replacement @ drop (i + 1) word"

text \<open>
  One of the two loops over the positions of the word: every entry of the table for the
  character at position \<open>i\<close> is substituted there and the result added to the set.
\<close>

definition add_substitutions ::
    "(ustring \<times> ustring list) list \<Rightarrow> ustring \<Rightarrow> ustring list \<Rightarrow> ustring list" where
  "add_substitutions table word variants =
     fold (\<lambda>i vs. fold (\<lambda>r vs'. set_add (substitute word i r) vs') (get_list table [word ! i]) vs)
       [0..<length word] variants"

definition variant_set :: "ustring \<Rightarrow> ustring list" where
  "variant_set word =
     add_substitutions OCR_MIGHT_PRODUCE word (add_substitutions CONFUSION_MATRIX word [word])"

definition generate_confusion_variants :: "runtime \<Rightarrow> ustring \<Rightarrow> int \<Rightarrow> ustring list" where
  "generate_confusion_variants R word max_variants =
     slice_to max_variants (set_order R (variant_set word))"

subsection \<open>\<open>find_candidates\<close>\<close>

text \<open>Step 1: the body of the loop over the confusion variants.\<close>

definition variant_info :: "ustring \<Rightarrow> real \<Rightarrow> info" where
  "variant_info word score =
     [''source'' \<mapsto> PStr (ascii ''confusion_variant''), ''original'' \<mapsto> PStr word,
      ''confusion_sim'' \<mapsto> PFloat score]"

definition variant_step :: "processor \<Rightarrow> ustring \<Rightarrow> ustring \<Rightarrow> candidate list \<Rightarrow> candidate list" where
  "variant_step P word variant candidates =
     (if variant \<in> dictionary P \<and> variant \<noteq> word
      then (if confusion_similarity word variant \<ge> confusion_threshold P
            then candidates @ [(variant, confusion_similarity word variant,
                                variant_info word (confusion_similarity word variant))]
            else candidates)
      else candidates)"

text \<open>Step 2: the fuzzy matches, and the body of the loop over them.\<close>

fun fuzzy_matches :: "runtime \<Rightarrow> processor \<Rightarrow> ustring \<Rightarrow> int \<Rightarrow> (ustring \<times> real) list" where
  "fuzzy_matches R P word max_candidates =
     (case FUZZY_LIB R of None \<Rightarrow> []
      | Some extract \<Rightarrow> extract word (dictionary P) (max_candidates * 2))"

definition combined_score :: "ustring \<Rightarrow> ustring \<Rightarrow> real \<Rightarrow> real" where
  "combined_score word candidate fuzzy_score =
     0.4 * fuzzy_score + 0.6 * confusion_similarity word candidate"

definition fuzzy_info :: "ustring \<Rightarrow> ustring \<Rightarrow> real \<Rightarrow> info" where
  "fuzzy_info word candidate fuzzy_score =
     [''source'' \<mapsto> PStr (ascii ''fuzzy''), ''fuzzy_score'' \<mapsto> PFloat fuzzy_score,
      ''confusion_score'' \<mapsto> PFloat (confusion_similarity word candidate),
      ''combined'' \<mapsto> PFloat (combined_score word candidate fuzzy_score)]"

fun fuzzy_step :: "processor \<Rightarrow> ustring \<Rightarrow> ustring \<times> real \<Rightarrow> candidate list \<Rightarrow> candidate list" where
  "fuzzy_step P word (candidate, fuzzy_score) candidates =
     (if candidate = word then candidates
      else if combined_score word candidate fuzzy_score \<ge> confusion_threshold P
      then (if \<not> (\<exists>c \<in> set candidates. fst c = candidate)
            then candidates @ [(candidate, combined_score word candidate fuzzy_score,
                                fuzzy_info word candidate fuzzy_score)]
            else candidates)
      else candidates)"

text \<open>Step 3: the confidence boost.\<close>

definition low_conf_positions :: "processor \<Rightarrow> real list \<Rightarrow> nat list" where
  "low_conf_positions P confs = filter (\<lambda>i. confs ! i < confidence_threshold P) [0..<length confs]"

definition diff_positions :: "ustring \<Rightarrow> ustring \<Rightarrow> nat list" where
  "diff_positions word candidate =
     filter (\<lambda>j. j < length candidate \<and> word ! j \<noteq> candidate ! j) [0..<length word]"

definition overlap :: "processor \<Rightarrow> ustring \<Rightarrow> real list \<Rightarrow> ustring \<Rightarrow> nat" where
  "overlap P word confs candidate =
     card (set (diff_positions word candidate) \<inter> set (low_conf_positions P confs))"

fun boost_candidate :: "processor \<Rightarrow> ustring \<Rightarrow> real list \<Rightarrow> candidate \<Rightarrow> candidate" where
  "boost_candidate P word confs (candidate, score, info) =
     (if length candidate = length word \<and> overlap P word confs candidate > 0
      then (candidate, min 100 (score + real (5 * overlap P word confs candidate)),
            info(''confidence_boost'' \<mapsto> PInt (int (5 * overlap P word confs candidate)),
                 ''low_conf_positions'' \<mapsto> PList (low_conf_positions P confs)))
      else (candidate, score, info))"

fun boost_candidates ::
    "processor \<Rightarrow> ustring \<Rightarrow> real list option \<Rightarrow> candidate list \<Rightarrow> candidate list" where
  "boost_candidates P word None candidates = candidates"
| "boost_candidates P word (Some confs) candidates =
     (if confs \<noteq> [] \<and> length confs = length word
      then map (boost_candidate P word confs) candidates else candidates)"

text \<open>
  The candidates after \<open>candidates.sort(key=lambda x: -x[1])\<close> (a stable sort) and the slice
  \<open>candidates[:max_candidates]\<close>.
\<close>

definition collected_candidates ::
    "runtime \<Rightarrow> processor \<Rightarrow> ustring \<Rightarrow> real list option \<Rightarrow> int \<Rightarrow> candidate list" where
  "collected_candidates R P word char_confidences max_candidates =
     boost_candidates P word char_confidences
       (fold (fuzzy_step P word) (fuzzy_matches R P word max_candidates)
         (fold (variant_step P word) (generate_confusion_variants R word 20) []))"

definition ranked_candidates ::
    "runtime \<Rightarrow> processor \<Rightarrow> ustring \<Rightarrow> real list option \<Rightarrow> int \<Rightarrow> candidate list" where
  "ranked_candidates R P word char_confidences max_candidates =
     slice_to max_candidates
       (sort_key (\<lambda>x. - fst (snd x)) (collected_candidates R P word char_confidences max_candidates))"

text \<open>The word-frequency bonus, with the two tests in the order of the source.\<close>

definition freq_bonus :: "processor \<Rightarrow> ustring \<Rightarrow> int" where
  "freq_bonus P candidate =
     (if count_of (word_freq P) candidate > 10 then 3
      else if count_of (word_freq P) candidate > 100 then 5
      else 0)"

fun add_freq_bonus :: "processor \<Rightarrow> candidate \<Rightarrow> candidate" where
  "add_freq_bonus P (candidate, score, info) =
     (candidate, min 100 (score + real_of_int (freq_bonus P candidate)),
      info(''freq_bonus'' \<mapsto> PInt (freq_bonus P candidate)))"

definition find_candidates ::
    "runtime \<Rightarrow> processor \<Rightarrow> ustring \<Rightarrow> real list option \<Rightarrow> int \<Rightarrow> candidate list" where
  "find_candidates R P word char_confidences max_candidates =
     (if dictionary P = {} then [(word, 100, [''source'' \<mapsto> PStr (ascii ''no_dict'')])]
      else if word \<in> dictionary P then [(word, 100, [''source'' \<mapsto> PStr (ascii ''in_dict'')])]
      else if map (add_freq_bonus P) (ranked_candidates R P word char_confidences max_candidates) = []
      then [(word, 0, [''source'' \<mapsto> PStr (ascii ''no_match'')])]
      else map (add_freq_bonus P) (ranked_candidates R P word char_confidences max_candidates))"

subsection \<open>\<open>correct_word\<close>\<close>

text \<open>
  The body of the loop over the candidates, on \<open>(best_candidate, best_score, best_info)\<close>.
\<close>

definition final_score ::
    "processor \<Rightarrow> ustring option \<Rightarrow> ustring option \<Rightarrow> ustring \<Rightarrow> real \<Rightarrow> real" where
  "final_score P prev_word next_word candidate base_score =
     (1 - context_weight P) * base_score
       + context_weight P * get_context_score P prev_word candidate next_word"

fun consider_candidate ::
    "processor \<Rightarrow> ustring option \<Rightarrow> ustring option \<Rightarrow> candidate
       \<Rightarrow> ustring \<times> real \<times> info option \<Rightarrow> ustring \<times> real \<times> info option" where
  "consider_candidate P prev_word next_word (candidate, base_score, info) (best_candidate, best_score, best_info) =
     (if final_score P prev_word next_word candidate base_score > best_score
      then (candidate, final_score P prev_word next_word candidate base_score,
            Some (info(''base_score'' \<mapsto> PFloat base_score,
                       ''context_score'' \<mapsto> PFloat (get_context_score P prev_word candidate next_word),
                       ''final_score'' \<mapsto> PFloat (final_score P prev_word next_word candidate base_score),
                       ''prev_word'' \<mapsto> opt_str prev_word,
                       ''next_word'' \<mapsto> opt_str next_word)))
      else (best_candidate, best_score, best_info))"

text \<open>The acceptance threshold, lowered for a word of low average confidence.\<close>

fun threshold :: "processor \<Rightarrow> real list option \<Rightarrow> real" where
  "threshold P None = confusion_threshold P"
| "threshold P (Some confs) =
     (if confs \<noteq> [] \<and> sum_list confs / real (length confs) < confidence_threshold P
      then max 50 (confusion_threshold P - 10)
      else confusion_threshold P)"

fun decide ::
    "processor \<Rightarrow> ustring \<Rightarrow> real list option \<Rightarrow> ustring \<times> real \<times> info option
       \<Rightarrow> ustring \<times> bool \<times> info option" where
  "decide P word char_confidences (best_candidate, best_score, best_info) =
     (if best_candidate \<noteq> word \<and> best_score \<ge> threshold P char_confidences
      then (best_candidate, True, best_info)
      else (best_candidate, False, None))"

fun no_usable_candidate :: "candidate list \<Rightarrow> bool" where
  "no_usable_candidate [] = True"
| "no_usable_candidate (c # cs) = (fst (snd c) = 0)"

definition correct_word ::
    "runtime \<Rightarrow> processor \<Rightarrow> ustring \<Rightarrow> real list option \<Rightarrow> ustring option \<Rightarrow> ustring option
       \<Rightarrow> ustring \<times> bool \<times> info option" where
  "correct_word R P word char_confidences prev_word next_word =
     (if int (length word) < min_word_length P then (word, False, None)
      else if word \<in> dictionary P then (word, False, None)
      else if no_usable_candidate (find_candidates R P word char_confidences 10)
      then (word, False, None)
      else decide P word char_confidences
             (fold (consider_candidate P prev_word next_word) (find_candidates R P word char_confidences 10)
                (word, 0, None)))"

subsection \<open>\<open>process_text\<close> and \<open>process_with_confidence\<close>\<close>

definition prev_of :: "ustring list \<Rightarrow> nat \<Rightarrow> ustring option" where
  "prev_of words i = (if i > 0 then Some (words ! (i - 1)) else None)"

definition next_of :: "ustring list \<Rightarrow> nat \<Rightarrow> ustring option" where
  "next_of words i = (if int i < int (length words) - 1 then Some (words ! (i + 1)) else None)"

text \<open>\<open>if was_corrected and info:\<close> appends \<open>{'original': word, 'corrected': corrected, **info}\<close>.\<close>

fun log_entry :: "info \<Rightarrow> ustring \<times> bool \<times> info option \<Rightarrow> info list" where
  "log_entry head (corrected, was_corrected, None) = []"
| "log_entry head (corrected, was_corrected, Some info) =
     (if was_corrected \<and> info \<noteq> Map.empty
      then [head(''corrected'' \<mapsto> PStr corrected) ++ info] else [])"

definition text_result_at :: "runtime \<Rightarrow> processor \<Rightarrow> ustring list \<Rightarrow> nat \<Rightarrow> ustring \<times> bool \<times> info option" where
  "text_result_at R P words i = correct_word R P (words ! i) None (prev_of words i) (next_of words i)"

definition process_text :: "runtime \<Rightarrow> processor \<Rightarrow> ustring \<Rightarrow> ustring \<times> info list" where
  "process_text R P text =
     (str_join [32] (map (\<lambda>i. fst (text_result_at R P (str_split text) i)) [0..<length (str_split text)]),
      concat (map (\<lambda>i. log_entry [''original'' \<mapsto> PStr (str_split text ! i)]
                          (text_result_at R P (str_split text) i))
                [0..<length (str_split text)]))"

fun word_confidence :: "real list \<Rightarrow> pyval" where
  "word_confidence word_conf =
     (if word_conf \<noteq> [] then PFloat (sum_list word_conf / real (length word_conf)) else PNone)"

definition conf_result_at ::
    "runtime \<Rightarrow> processor \<Rightarrow> ustring list \<Rightarrow> real list list \<Rightarrow> nat \<Rightarrow> ustring \<times> bool \<times> info option" where
  "conf_result_at R P words char_confidences i =
     correct_word R P (words ! i) (Some (char_confidences ! i)) (prev_of words i) (next_of words i)"

definition process_with_confidence ::
    "runtime \<Rightarrow> processor \<Rightarrow> ustring \<Rightarrow> real list list \<Rightarrow> ustring \<times> info list" where
  "process_with_confidence R P text char_confidences =
     (if length char_confidences \<noteq> length (str_split text) then process_text R P text
      else
       (str_join [32] (map (\<lambda>i. fst (conf_result_at R P (str_split text) char_confidences i))
                         [0..<length (str_split text)]),
        concat (map (\<lambda>i. log_entry [''original'' \<mapsto> PStr (str_split text ! i),
                                     ''word_confidence'' \<mapsto> word_confidence (char_confidences ! i)]
                            (conf_result_at R P (str_split text) char_confidences i))
                  [0..<length (str_split text)])))"

section \<open>The context-aware post-processor (post\_process\_context.py)\<close>

text \<open>The fields of \<open>ContextAwarePostProcessor\<close> that \<open>get_bigram_score\<close> reads.\<close>

record context_processor =
  cx_min_word_length :: int
  cx_bigrams :: "(ustring \<times> (ustring \<times> int) list) list"
  cx_trigrams :: "(ustring \<times> (ustring \<times> int) list) list"
  cx_total_bigrams :: int
  cx_total_trigrams :: int

text \<open>
  \<open>_normalize\<close> keeps the word characters and the range U+0600 to U+06FF.  Which characters the \<open>re\<close> module
  counts as \<open>\w\<close> is a table of the Python runtime, taken as the parameter \<open>wordchar\<close>.
\<close>

definition cx_keep :: "(uchar \<Rightarrow> bool) \<Rightarrow> uchar \<Rightarrow> bool" where
  "cx_keep wordchar c \<longleftrightarrow> wordchar c \<or> is_arabic c"

definition cx_normalize :: "(uchar \<Rightarrow> bool) \<Rightarrow> context_processor \<Rightarrow> ustring \<Rightarrow> ustring option" where
  "cx_normalize wordchar C word =
     (if int (length (strip_edges (cx_keep wordchar) word)) \<ge> cx_min_word_length C
      then Some (strip_edges (cx_keep wordchar) word) else None)"

text \<open>
  The trigram block: the key is \<open>f"{prev_prev_norm}|{prev_norm}"\<close>, and \<open>count\<close> grows only
  when the word is found among the followers.
\<close>

fun trigram_block ::
    "(ustring \<times> (ustring \<times> int) list) list \<Rightarrow> ustring option \<Rightarrow> ustring option \<Rightarrow> ustring option
       \<Rightarrow> real \<times> int \<Rightarrow> real \<times> int" where
  "trigram_block table (Some pp) (Some p) (Some w) (score, count) =
     (if pp \<noteq> [] \<and> p \<noteq> [] \<and> has_key table (pp @ [124] @ p) \<and> w \<noteq> []
         \<and> has_key (get_list table (pp @ [124] @ p)) w
      then (score + ratio_score (get_list table (pp @ [124] @ p)) w 800, count + 1)
      else (score, count))"
| "trigram_block table pp p w (score, count) = (score, count)"

definition cx_prev_block ::
    "(uchar \<Rightarrow> bool) \<Rightarrow> context_processor \<Rightarrow> ustring option \<Rightarrow> ustring option \<Rightarrow> real \<times> int \<Rightarrow> real \<times> int" where
  "cx_prev_block wordchar C prev_word word_norm acc =
     (if truthy prev_word
      then bigram_block (cx_bigrams C) (normalize_opt (cx_normalize wordchar C) prev_word) word_norm acc
      else acc)"

definition cx_next_block ::
    "(uchar \<Rightarrow> bool) \<Rightarrow> context_processor \<Rightarrow> ustring option \<Rightarrow> ustring option \<Rightarrow> real \<times> int \<Rightarrow> real \<times> int" where
  "cx_next_block wordchar C next_word word_norm acc =
     (if truthy next_word \<and> truthy word_norm
      then bigram_block (cx_bigrams C) word_norm (normalize_opt (cx_normalize wordchar C) next_word) acc
      else acc)"

definition cx_trigram_block ::
    "(uchar \<Rightarrow> bool) \<Rightarrow> context_processor \<Rightarrow> ustring option \<Rightarrow> ustring option \<Rightarrow> ustring option
       \<Rightarrow> real \<times> int \<Rightarrow> real \<times> int" where
  "cx_trigram_block wordchar C prev_prev_word prev_word word_norm acc =
     (if cx_total_trigrams C > 0 \<and> truthy prev_prev_word \<and> truthy prev_word
      then trigram_block (cx_trigrams C)
             (normalize_opt (cx_normalize wordchar C) prev_prev_word)
             (normalize_opt (cx_normalize wordchar C) prev_word) word_norm acc
      else acc)"

definition get_bigram_score ::
    "(uchar \<Rightarrow> bool) \<Rightarrow> context_processor \<Rightarrow> ustring option \<Rightarrow> ustring \<Rightarrow> ustring option
       \<Rightarrow> ustring option \<Rightarrow> real" where
  "get_bigram_score wordchar C prev_word word next_word prev_prev_word =
     (if cx_total_bigrams C = 0 then 50
      else average_or_neutral
             (cx_trigram_block wordchar C prev_prev_word prev_word
                (normalize_opt (cx_normalize wordchar C) (Some word))
               (cx_next_block wordchar C next_word (normalize_opt (cx_normalize wordchar C) (Some word))
                 (cx_prev_block wordchar C prev_word
                    (normalize_opt (cx_normalize wordchar C) (Some word)) (0, 0)))))"

section \<open>The corpus model (build\_corpus\_model.py)\<close>

text \<open>
  The state of a \<open>CorpusProcessor\<close>, and the dictionary that \<open>save_model\<close> pickles and
  \<open>merge_with_existing\<close> loads.  A dictionary is an association list in insertion order
  (the order in which \<open>.items()\<close> enumerates it); its keys are distinct.
\<close>

record corpus_processor =
  cp_word_freq :: "(ustring \<times> int) list"
  cp_bigrams :: "(ustring \<times> (ustring \<times> int) list) list"
  cp_trigrams :: "(ustring \<times> (ustring \<times> int) list) list"
  cp_total_words :: int
  cp_total_bigrams :: int
  cp_total_trigrams :: int
  cp_files_processed :: int

record snapshot =
  s_word_freq :: "(ustring \<times> int) list"
  s_bigrams :: "(ustring \<times> (ustring \<times> int) list) list"
  s_trigrams :: "(ustring \<times> (ustring \<times> int) list) list"
  s_total_words :: int
  s_total_bigrams :: int
  s_total_trigrams :: int

text \<open>\<open>CorpusProcessor()\<close>, and the snapshot written by \<open>save_model\<close>.\<close>

definition new_corpus_processor :: corpus_processor where
  "new_corpus_processor =
     \<lparr>cp_word_freq = [], cp_bigrams = [], cp_trigrams = [], cp_total_words = 0,
      cp_total_bigrams = 0, cp_total_trigrams = 0, cp_files_processed = 0\<rparr>"

definition save_model :: "corpus_processor \<Rightarrow> snapshot" where
  "save_model cp =
     \<lparr>s_word_freq = cp_word_freq cp, s_bigrams = cp_bigrams cp, s_trigrams = cp_trigrams cp,
      s_total_words = cp_total_words cp, s_total_bigrams = cp_total_bigrams cp,
      s_total_trigrams = cp_total_trigrams cp\<rparr>"

text \<open>\<open>c[k] += v\<close> on a \<open>Counter\<close>, and \<open>d[k1][k2] += v\<close> on a \<open>defaultdict(Counter)\<close>.\<close>

fun counter_add :: "'k \<Rightarrow> int \<Rightarrow> ('k \<times> int) list \<Rightarrow> ('k \<times> int) list" where
  "counter_add k v [] = [(k, 0 + v)]"
| "counter_add k v ((k', c) # d) =
     (if k' = k then (k', c + v) # d else (k', c) # counter_add k v d)"

fun nested_add ::
    "'k \<Rightarrow> 'j \<Rightarrow> int \<Rightarrow> ('k \<times> ('j \<times> int) list) list \<Rightarrow> ('k \<times> ('j \<times> int) list) list" where
  "nested_add k1 k2 v [] = [(k1, counter_add k2 v [])]"
| "nested_add k1 k2 v ((k', c) # d) =
     (if k' = k1 then (k', counter_add k2 v c) # d else (k', c) # nested_add k1 k2 v d)"


text \<open>The sum of all counts of a dictionary, flat and nested.\<close>

definition total_of :: "('k \<times> int) list \<Rightarrow> int" where
  "total_of d = sum_list (map snd d)"

definition total2 :: "('k \<times> ('j \<times> int) list) list \<Rightarrow> int" where
  "total2 d = sum_list (map (\<lambda>entry. total_of (snd entry)) d)"

text \<open>The bodies of the three loops of \<open>merge_with_existing\<close>.\<close>

fun merge_word :: "ustring \<times> int \<Rightarrow> corpus_processor \<Rightarrow> corpus_processor" where
  "merge_word (word, freq) cp =
     cp\<lparr>cp_word_freq := counter_add word freq (cp_word_freq cp),
        cp_total_words := cp_total_words cp + freq\<rparr>"

fun merge_bigram :: "ustring \<Rightarrow> ustring \<times> int \<Rightarrow> corpus_processor \<Rightarrow> corpus_processor" where
  "merge_bigram w1 (w2, count) cp =
     cp\<lparr>cp_bigrams := nested_add w1 w2 count (cp_bigrams cp),
        cp_total_bigrams := cp_total_bigrams cp + count\<rparr>"

fun merge_trigram :: "ustring \<Rightarrow> ustring \<times> int \<Rightarrow> corpus_processor \<Rightarrow> corpus_processor" where
  "merge_trigram key (w3, count) cp =
     cp\<lparr>cp_trigrams := nested_add key w3 count (cp_trigrams cp),
        cp_total_trigrams := cp_total_trigrams cp + count\<rparr>"

fun merge_bigram_row :: "ustring \<times> (ustring \<times> int) list \<Rightarrow> corpus_processor \<Rightarrow> corpus_processor" where
  "merge_bigram_row (w1, following) cp = fold (merge_bigram w1) following cp"

fun merge_trigram_row :: "ustring \<times> (ustring \<times> int) list \<Rightarrow> corpus_processor \<Rightarrow> corpus_processor" where
  "merge_trigram_row (key, following) cp = fold (merge_trigram key) following cp"

text \<open>
  \<open>merge_with_existing\<close>: \<open>None\<close> stands for a path at which no file exists; the stored
  totals of the snapshot are not read, the totals grow by each merged count.
\<close>

fun merge_with_existing :: "corpus_processor \<Rightarrow> snapshot option \<Rightarrow> corpus_processor" where
  "merge_with_existing cp None = cp"
| "merge_with_existing cp (Some data) =
     fold merge_trigram_row (s_trigrams data)
       (fold merge_bigram_row (s_bigrams data)
         (fold merge_word (s_word_freq data) cp))"

text \<open>The key sets of a well-formed snapshot: a dictionary has each key once.\<close>

definition distinct_keys :: "('k \<times> 'v) list \<Rightarrow> bool" where
  "distinct_keys d \<longleftrightarrow> distinct (map fst d)"

definition snapshot_ok :: "snapshot \<Rightarrow> bool" where
  "snapshot_ok data \<longleftrightarrow>
     distinct_keys (s_word_freq data) \<and>
     distinct_keys (s_bigrams data) \<and> list_all (\<lambda>entry. distinct_keys (snd entry)) (s_bigrams data) \<and>
     distinct_keys (s_trigrams data) \<and> list_all (\<lambda>entry. distinct_keys (snd entry)) (s_trigrams data)"

text \<open>
  The stored totals of a snapshot are running totals when they equal the sums of its
  counts, as \<open>process_text\<close> and \<open>merge_with_existing\<close> maintain them.
\<close>

definition snapshot_totals_ok :: "snapshot \<Rightarrow> bool" where
  "snapshot_totals_ok data \<longleftrightarrow>
     s_total_words data = total_of (s_word_freq data) \<and>
     s_total_bigrams data = total2 (s_bigrams data) \<and>
     s_total_trigrams data = total2 (s_trigrams data)"

text \<open>
  \<open>normalize_word\<close> and \<open>process_text\<close> of \<open>CorpusProcessor\<close>.  The class \<open>\w\<close> of the \<open>re\<close>
  module and the digits of \<open>str.isdigit\<close> are tables of the Python runtime, taken as the
  parameters \<open>wordchar\<close> and \<open>digit\<close>.
\<close>

definition cp_keep :: "(uchar \<Rightarrow> bool) \<Rightarrow> uchar \<Rightarrow> bool" where
  "cp_keep wordchar c \<longleftrightarrow> wordchar c \<or> is_arabic c \<or> (1872 \<le> c \<and> c \<le> 1919)"

definition normalize_word :: "(uchar \<Rightarrow> bool) \<Rightarrow> (uchar \<Rightarrow> bool) \<Rightarrow> ustring \<Rightarrow> ustring option" where
  "normalize_word wordchar digit word =
     (if word = [] then None
      else if length (strip_edges (cp_keep wordchar) word) < 2
              \<or> list_all digit (strip_edges (cp_keep wordchar) word)
      then None
      else Some (strip_edges (cp_keep wordchar) word))"

text \<open>The three counting steps: each adds 1 to one count and to its total.\<close>

definition count_word :: "ustring \<Rightarrow> corpus_processor \<Rightarrow> corpus_processor" where
  "count_word w cp =
     cp\<lparr>cp_word_freq := counter_add w 1 (cp_word_freq cp), cp_total_words := cp_total_words cp + 1\<rparr>"

definition count_bigram :: "ustring list \<Rightarrow> nat \<Rightarrow> corpus_processor \<Rightarrow> corpus_processor" where
  "count_bigram normalized i cp =
     cp\<lparr>cp_bigrams := nested_add (normalized ! i) (normalized ! (i + 1)) 1 (cp_bigrams cp),
        cp_total_bigrams := cp_total_bigrams cp + 1\<rparr>"

definition count_trigram :: "ustring list \<Rightarrow> nat \<Rightarrow> corpus_processor \<Rightarrow> corpus_processor" where
  "count_trigram normalized i cp =
     cp\<lparr>cp_trigrams := nested_add (normalized ! i @ [124] @ normalized ! (i + 1))
                          (normalized ! (i + 2)) 1 (cp_trigrams cp),
        cp_total_trigrams := cp_total_trigrams cp + 1\<rparr>"

definition normalized_words :: "(uchar \<Rightarrow> bool) \<Rightarrow> (uchar \<Rightarrow> bool) \<Rightarrow> ustring \<Rightarrow> ustring list" where
  "normalized_words wordchar digit text =
     List.map_filter (normalize_word wordchar digit) (str_split text)"

definition count_ngrams :: "ustring list \<Rightarrow> corpus_processor \<Rightarrow> corpus_processor" where
  "count_ngrams normalized cp =
     fold (count_trigram normalized) [0..<length normalized - 2]
       (fold (count_bigram normalized) [0..<length normalized - 1]
         (fold count_word normalized cp))"

definition cp_process_text ::
    "(uchar \<Rightarrow> bool) \<Rightarrow> (uchar \<Rightarrow> bool) \<Rightarrow> ustring \<Rightarrow> corpus_processor \<Rightarrow> corpus_processor" where
  "cp_process_text wordchar digit text cp = count_ngrams (normalized_words wordchar digit text) cp"

text \<open>
  The states a \<open>CorpusProcessor\<close> can reach: created, then any sequence of texts processed
  and snapshots merged.
\<close>

inductive built :: "(uchar \<Rightarrow> bool) \<Rightarrow> (uchar \<Rightarrow> bool) \<Rightarrow> corpus_processor \<Rightarrow> bool"
  for wordchar digit where
  built_new: "built wordchar digit new_corpus_processor"
| built_text: "built wordchar digit cp \<Longrightarrow> built wordchar digit (cp_process_text wordchar digit text cp)"
| built_merge: "built wordchar digit cp \<Longrightarrow> built wordchar digit cp' \<Longrightarrow>
     built wordchar digit (merge_with_existing cp (Some (save_model cp')))"



text \<open>The invariant of a processor: its saved model has distinct keys and running totals.\<close>

definition cp_inv :: "corpus_processor \<Rightarrow> bool" where
  "cp_inv cp \<longleftrightarrow> snapshot_ok (save_model cp) \<and> snapshot_totals_ok (save_model cp)"

section \<open>Default instances\<close>

text \<open>
  \<open>EnhancedPostProcessor()\<close> with the default arguments of \<open>__init__\<close> and no files loaded,
  and a runtime without a fuzzy-matching library in which a set is enumerated in
  insertion order.
\<close>

definition new_processor :: processor where
  "new_processor =
     \<lparr>min_word_length = 2, fuzzy_threshold = 70, confusion_threshold = 65,
      confidence_threshold = 0.8, context_weight = 0.2, dictionary = {}, word_freq = [],
      bigrams = [], total_bigrams = 0\<rparr>"

definition plain_runtime :: runtime where
  "plain_runtime = \<lparr>FUZZY_LIB = None, set_order = (\<lambda>xs. xs)\<rparr>"

section \<open>The reverse table\<close>

lemma get_list_dd_add_list:
  "get_list (dd_add k v d) c = (if c = k then set_add v (get_list d c) else get_list d c)"
  by (induction d) (auto simp: get_list_def set_add_def)

lemma get_list_dd_add:
  "set (get_list (dd_add k v d) c) = (if c = k then insert v (set (get_list d c)) else set (get_list d c))"
  by (simp add: get_list_dd_add_list set_add_def insert_absorb)

lemma get_list_fold_dd_add:
  "set (get_list (fold (\<lambda>confused d'. dd_add confused k d') vs d) c)
     = (if c \<in> set vs then insert k (set (get_list d c)) else set (get_list d c))"
  by (induction vs arbitrary: d) (auto simp: get_list_dd_add)

lemma get_list_add_reverse_entries:
  "set (get_list (add_reverse_entries (k, vs) d) c)
     = (if c = k \<or> c \<in> set vs then insert k (set (get_list d c)) else set (get_list d c))"
  by (auto simp: add_reverse_entries_def get_list_dd_add get_list_fold_dd_add)

lemma get_list_fold_add_reverse_entries:
  "set (get_list (fold add_reverse_entries matrix d) c)
     = set (get_list d c) \<union> {k. \<exists>vs. (k, vs) \<in> set matrix \<and> (c = k \<or> c \<in> set vs)}"
proof (induction matrix arbitrary: d)
  case Nil
  then show ?case by simp
next
  case (Cons item matrix)
  obtain k vs where item: "item = (k, vs)" by (cases item)
  show ?case
    unfolding fold_simps item Cons.IH get_list_add_reverse_entries
    by auto
qed

lemma build_reverse_members:
  "set (get_list (build_reverse matrix) c)
     = {k. \<exists>vs. (k, vs) \<in> set matrix \<and> (c = k \<or> c \<in> set vs)}"
proof -
  have "get_list ([] :: (ustring \<times> ustring list) list) c = []"
    by (simp add: get_list_def)
  then show ?thesis
    by (simp add: build_reverse_def get_list_fold_add_reverse_entries)
qed

text \<open>
  C9 (as amended).  Every key of the confusion table is a member of its own entry of
  \<open>OCR_MIGHT_PRODUCE\<close>: the loop adds \<open>correct_char\<close> to its own set, and
  \<open>correct_char\<close> ranges over the keys only.
\<close>

theorem ocr_might_produce_self_for_keys:
  "c \<in> set (map fst CONFUSION_MATRIX) \<Longrightarrow> c \<in> set (get_list OCR_MIGHT_PRODUCE c)"
  unfolding OCR_MIGHT_PRODUCE_def build_reverse_members by auto

theorem ocr_might_produce_self_for_keys_witness:
  "[1604] \<in> set (map fst CONFUSION_MATRIX) \<and> [1604] \<in> set (get_list OCR_MIGHT_PRODUCE [1604])"
proof -
  have k: "[1604] \<in> set (map fst CONFUSION_MATRIX)"
    by (simp add: CONFUSION_MATRIX_def)
  from ocr_might_produce_self_for_keys [OF k] k show ?thesis by simp
qed

text \<open>
  C9 as stated fails for a value that is not a key: alef (1575) occurs in the table as a
  confusable value of lam, yet it is not a member of its own entry.
\<close>

theorem ocr_might_produce_self_counterexample:
  "[1575] \<in> table_strings CONFUSION_MATRIX \<and> [1575] \<notin> set (get_list OCR_MIGHT_PRODUCE [1575])"
proof -
  have "[1575] \<in> table_strings CONFUSION_MATRIX"
    by (simp add: table_strings_def CONFUSION_MATRIX_def)
  moreover have "[1575] \<notin> set (get_list OCR_MIGHT_PRODUCE [1575])"
    unfolding OCR_MIGHT_PRODUCE_def build_reverse_members
    by (simp add: CONFUSION_MATRIX_def)
  ultimately show ?thesis by simp
qed

section \<open>The table holds the edit-distance recurrence\<close>

lemma set_cell_ok: "table_ok dp n1 n2 \<Longrightarrow> table_ok (set_cell dp i j v) n1 n2"
  by (cases "i < length dp") (auto simp: table_ok_def set_cell_def nth_list_update)

lemma set_cell_nth:
  "table_ok dp n1 n2 \<Longrightarrow> i \<le> n1 \<Longrightarrow> j \<le> n2 \<Longrightarrow>
   set_cell dp i j v ! a ! b = (if a = i \<and> b = j then v else dp ! a ! b)"
  by (auto simp: table_ok_def set_cell_def nth_list_update)

lemma new_table_ok: "table_ok (new_table n1 n2) n1 n2"
proof -
  have "replicate (n1 + 1) (replicate (n2 + 1) (0::real)) ! a = replicate (n2 + 1) 0" if "a \<le> n1" for a
    using that nth_replicate [of a "n1 + 1"] by (simp add: less_Suc_eq_le)
  then show ?thesis
    unfolding table_ok_def new_table_def by (simp del: replicate_Suc)
qed

lemma fold_upt_Suc: "i \<le> k \<Longrightarrow> fold f [i..<Suc k] s = f k (fold f [i..<k] s)"
  by simp

lemma column_loop:
  assumes "table_ok dp n1 n2"
  shows "k \<le> n1 + 1 \<Longrightarrow>
         table_ok (fold (\<lambda>i dp'. set_cell dp' i 0 (real i)) [0..<k] dp) n1 n2 \<and>
         (\<forall>a b. fold (\<lambda>i dp'. set_cell dp' i 0 (real i)) [0..<k] dp ! a ! b
                  = (if a < k \<and> b = 0 then real a else dp ! a ! b))"
proof (induction k)
  case 0
  show ?case using assms by simp
next
  case (Suc k)
  define d where "d = fold (\<lambda>i dp'. set_cell dp' i 0 (real i)) [0..<k] dp"
  from Suc have ok: "table_ok d n1 n2"
    and cells: "\<And>a b. d ! a ! b = (if a < k \<and> b = 0 then real a else dp ! a ! b)"
    and k: "k \<le> n1"
    by (simp_all add: d_def)
  have step: "fold (\<lambda>i dp'. set_cell dp' i 0 (real i)) [0..<Suc k] dp = set_cell d k 0 (real k)"
    by (simp add: d_def)
  show ?case
    unfolding step using k
    by (auto simp: set_cell_ok [OF ok] set_cell_nth [OF ok] cells)
qed

lemma row_loop:
  assumes "table_ok dp n1 n2"
  shows "k \<le> n2 + 1 \<Longrightarrow>
         table_ok (fold (\<lambda>j dp'. set_cell dp' 0 j (real j)) [0..<k] dp) n1 n2 \<and>
         (\<forall>a b. fold (\<lambda>j dp'. set_cell dp' 0 j (real j)) [0..<k] dp ! a ! b
                  = (if a = 0 \<and> b < k then real b else dp ! a ! b))"
proof (induction k)
  case 0
  show ?case using assms by simp
next
  case (Suc k)
  define d where "d = fold (\<lambda>j dp'. set_cell dp' 0 j (real j)) [0..<k] dp"
  from Suc have ok: "table_ok d n1 n2"
    and cells: "\<And>a b. d ! a ! b = (if a = 0 \<and> b < k then real b else dp ! a ! b)"
    and k: "k \<le> n2"
    by (simp_all add: d_def)
  have step: "fold (\<lambda>j dp'. set_cell dp' 0 j (real j)) [0..<Suc k] dp = set_cell d 0 k (real k)"
    by (simp add: d_def)
  show ?case
    unfolding step using k
    by (auto simp: set_cell_ok [OF ok] set_cell_nth [OF ok] cells)
qed

lemma base_cases_result:
  assumes "table_ok dp n1 n2"
  shows "table_ok (base_cases n1 n2 dp) n1 n2"
    and "a \<le> n1 \<Longrightarrow> b \<le> n2 \<Longrightarrow>
         base_cases n1 n2 dp ! a ! b = (if a = 0 then real b else if b = 0 then real a else dp ! a ! b)"
proof -
  define c where "c = fold (\<lambda>i dp'. set_cell dp' i 0 (real i)) [0..<n1 + 1] dp"
  have c: "table_ok c n1 n2" "\<And>a b. c ! a ! b = (if a < n1 + 1 \<and> b = 0 then real a else dp ! a ! b)"
    unfolding c_def using column_loop [OF assms, of "n1 + 1"] by blast+
  have b: "base_cases n1 n2 dp = fold (\<lambda>j dp'. set_cell dp' 0 j (real j)) [0..<n2 + 1] c"
    unfolding base_cases_def c_def ..
  have r: "table_ok (base_cases n1 n2 dp) n1 n2"
    "\<And>a b. base_cases n1 n2 dp ! a ! b = (if a = 0 \<and> b < n2 + 1 then real b else c ! a ! b)"
    unfolding b using row_loop [OF c(1), of "n2 + 1"] by blast+
  show "table_ok (base_cases n1 n2 dp) n1 n2" by (rule r(1))
  show "base_cases n1 n2 dp ! a ! b = (if a = 0 then real b else if b = 0 then real a else dp ! a ! b)"
    if "a \<le> n1" "b \<le> n2"
    unfolding r(2) c(2) using that by auto
qed

lemma fill_cell_ok: "table_ok dp n1 n2 \<Longrightarrow> table_ok (fill_cell w1 w2 i j dp) n1 n2"
  by (simp add: fill_cell_def set_cell_ok)

lemma fill_cell_nth:
  assumes ok: "table_ok dp n1 n2" and i: "Suc i' \<le> n1" and j: "Suc j' \<le> n2"
    and up: "dp ! i' ! Suc j' = cell w1 w2 i' (Suc j')"
    and left: "dp ! Suc i' ! j' = cell w1 w2 (Suc i') j'"
    and diag: "dp ! i' ! j' = cell w1 w2 i' j'"
  shows "fill_cell w1 w2 (Suc i') (Suc j') dp ! a ! b
      = (if a = Suc i' \<and> b = Suc j' then cell w1 w2 (Suc i') (Suc j') else dp ! a ! b)"
  unfolding fill_cell_def set_cell_nth [OF ok i j]
  by (simp add: up left diag)

lemma fill_row_loop:
  assumes i: "Suc i' \<le> n1"
  shows "table_ok dp n1 n2 \<Longrightarrow> k \<le> n2 \<Longrightarrow>
         (\<forall>b\<le>n2. dp ! i' ! b = cell w1 w2 i' b) \<Longrightarrow> dp ! Suc i' ! 0 = cell w1 w2 (Suc i') 0 \<Longrightarrow>
         table_ok (fold (fill_cell w1 w2 (Suc i')) [1..<Suc k] dp) n1 n2 \<and>
         (\<forall>a b. a \<noteq> Suc i' \<longrightarrow> fold (fill_cell w1 w2 (Suc i')) [1..<Suc k] dp ! a ! b = dp ! a ! b) \<and>
         (\<forall>b\<le>k. fold (fill_cell w1 w2 (Suc i')) [1..<Suc k] dp ! Suc i' ! b = cell w1 w2 (Suc i') b)"
proof (induction k)
  case 0
  then show ?case by simp
next
  case (Suc k)
  define d where "d = fold (fill_cell w1 w2 (Suc i')) [1..<Suc k] dp"
  from Suc have ok: "table_ok d n1 n2"
    and other: "\<And>a b. a \<noteq> Suc i' \<Longrightarrow> d ! a ! b = dp ! a ! b"
    and row: "\<And>b. b \<le> k \<Longrightarrow> d ! Suc i' ! b = cell w1 w2 (Suc i') b"
    and k: "Suc k \<le> n2"
    by (simp_all add: d_def)
  have prev: "\<And>b. b \<le> n2 \<Longrightarrow> d ! i' ! b = cell w1 w2 i' b"
    using Suc.prems(3) other [of i'] by simp
  have step: "fold (fill_cell w1 w2 (Suc i')) [1..<Suc (Suc k)] dp = fill_cell w1 w2 (Suc i') (Suc k) d"
    unfolding d_def by (rule fold_upt_Suc) simp
  have new: "fill_cell w1 w2 (Suc i') (Suc k) d ! a ! b
      = (if a = Suc i' \<and> b = Suc k then cell w1 w2 (Suc i') (Suc k) else d ! a ! b)" for a b
    using k by (intro fill_cell_nth [OF ok i] prev row) simp_all
  have "table_ok (fill_cell w1 w2 (Suc i') (Suc k) d) n1 n2"
    by (rule fill_cell_ok [OF ok])
  moreover have "\<forall>a b. a \<noteq> Suc i' \<longrightarrow> fill_cell w1 w2 (Suc i') (Suc k) d ! a ! b = dp ! a ! b"
    by (simp add: new other)
  moreover have "\<forall>b\<le>Suc k. fill_cell w1 w2 (Suc i') (Suc k) d ! Suc i' ! b = cell w1 w2 (Suc i') b"
    by (simp add: new row le_Suc_eq)
  ultimately show ?case unfolding step by blast
qed

lemma fill_row_result:
  assumes "Suc i' \<le> n1" "table_ok dp n1 (length w2)"
    "\<forall>b\<le>length w2. dp ! i' ! b = cell w1 w2 i' b" "dp ! Suc i' ! 0 = cell w1 w2 (Suc i') 0"
  shows "table_ok (fill_row w1 w2 (Suc i') dp) n1 (length w2)"
    and "\<And>a b. a \<noteq> Suc i' \<Longrightarrow> fill_row w1 w2 (Suc i') dp ! a ! b = dp ! a ! b"
    and "\<And>b. b \<le> length w2 \<Longrightarrow> fill_row w1 w2 (Suc i') dp ! Suc i' ! b = cell w1 w2 (Suc i') b"
proof -
  have eq: "fill_row w1 w2 (Suc i') dp = fold (fill_cell w1 w2 (Suc i')) [1..<Suc (length w2)] dp"
    by (simp only: fill_row_def Suc_eq_plus1)
  note r = fill_row_loop [OF assms(1,2) order_refl assms(3,4)]
  show "table_ok (fill_row w1 w2 (Suc i') dp) n1 (length w2)"
    unfolding eq using r by blast
  show "\<And>a b. a \<noteq> Suc i' \<Longrightarrow> fill_row w1 w2 (Suc i') dp ! a ! b = dp ! a ! b"
    unfolding eq using r by blast
  show "\<And>b. b \<le> length w2 \<Longrightarrow> fill_row w1 w2 (Suc i') dp ! Suc i' ! b = cell w1 w2 (Suc i') b"
    unfolding eq using r by blast
qed

lemma cell_zero_right: "cell w1 w2 i 0 = real i"
  by (cases i) simp_all

lemma fill_matrix_loop:
  shows "table_ok dp (length w1) (length w2) \<Longrightarrow> k \<le> length w1 \<Longrightarrow>
         (\<forall>b\<le>length w2. dp ! 0 ! b = real b) \<Longrightarrow> (\<forall>a\<le>length w1. dp ! a ! 0 = real a) \<Longrightarrow>
         table_ok (fold (fill_row w1 w2) [1..<Suc k] dp) (length w1) (length w2) \<and>
         (\<forall>a b. k < a \<longrightarrow> fold (fill_row w1 w2) [1..<Suc k] dp ! a ! b = dp ! a ! b) \<and>
         (\<forall>a\<le>k. \<forall>b\<le>length w2. fold (fill_row w1 w2) [1..<Suc k] dp ! a ! b = cell w1 w2 a b)"
proof (induction k)
  case 0
  then show ?case by simp
next
  case (Suc k)
  define d where "d = fold (fill_row w1 w2) [1..<Suc k] dp"
  from Suc have ok: "table_ok d (length w1) (length w2)"
    and later: "\<And>a b. k < a \<Longrightarrow> d ! a ! b = dp ! a ! b"
    and filled: "\<And>a b. a \<le> k \<Longrightarrow> b \<le> length w2 \<Longrightarrow> d ! a ! b = cell w1 w2 a b"
    and k: "Suc k \<le> length w1"
    by (simp_all add: d_def)
  have step: "fold (fill_row w1 w2) [1..<Suc (Suc k)] dp = fill_row w1 w2 (Suc k) d"
    unfolding d_def by (rule fold_upt_Suc) simp
  have prev: "\<forall>b\<le>length w2. d ! k ! b = cell w1 w2 k b"
    using filled by simp
  have first: "d ! Suc k ! 0 = cell w1 w2 (Suc k) 0"
    using later [of "Suc k" 0] Suc.prems(4) k by (simp add: cell_zero_right)
  note r = fill_row_result [OF k ok prev first]
  have "\<forall>a b. Suc k < a \<longrightarrow> fill_row w1 w2 (Suc k) d ! a ! b = dp ! a ! b"
    by (simp add: r(2) later)
  moreover have "\<forall>a\<le>Suc k. \<forall>b\<le>length w2. fill_row w1 w2 (Suc k) d ! a ! b = cell w1 w2 a b"
  proof (intro allI impI)
    fix a b assume "a \<le> Suc k" "b \<le> length w2"
    then show "fill_row w1 w2 (Suc k) d ! a ! b = cell w1 w2 a b"
      by (cases "a = Suc k") (simp_all add: r(2) r(3) filled)
  qed
  ultimately show ?case unfolding step using r(1) by blast
qed

lemma confusion_distance_cell:
  "confusion_distance w1 w2 =
     (if w1 = w2 then 0
      else if \<bar>int (length w1) - int (length w2)\<bar> > 3 then real (max (length w1) (length w2))
      else cell w1 w2 (length w1) (length w2))"
proof -
  define t where "t = base_cases (length w1) (length w2) (new_table (length w1) (length w2))"
  have ok: "table_ok t (length w1) (length w2)"
    unfolding t_def by (rule base_cases_result(1) [OF new_table_ok])
  have row0: "\<forall>b\<le>length w2. t ! 0 ! b = real b"
    unfolding t_def by (simp add: base_cases_result(2) [OF new_table_ok])
  have col0: "\<forall>a\<le>length w1. t ! a ! 0 = real a"
    unfolding t_def by (simp add: base_cases_result(2) [OF new_table_ok])
  have eq: "fill_matrix w1 w2 t = fold (fill_row w1 w2) [1..<Suc (length w1)] t"
    by (simp only: fill_matrix_def Suc_eq_plus1)
  have "fill_matrix w1 w2 t ! length w1 ! length w2 = cell w1 w2 (length w1) (length w2)"
    unfolding eq using fill_matrix_loop [OF ok order_refl row0 col0] by blast
  then show ?thesis
    unfolding confusion_distance_def t_def by simp
qed

lemma substitution_cost_sym: "substitution_cost c1 c2 = substitution_cost c2 c1"
  by (auto simp: substitution_cost_def)

lemma substitution_cost_nonneg: "0 \<le> substitution_cost c1 c2"
  by (simp add: substitution_cost_def)

lemma cell_sym: "cell w1 w2 i j = cell w2 w1 j i"
proof (induction w1 w2 i j rule: cell.induct)
  case (1 w1 w2 j)
  show ?case by (simp add: cell_zero_right)
next
  case (2 w1 w2 i)
  show ?case by simp
next
  case (3 w1 w2 i j)
  then show ?case
    by (simp add: substitution_cost_sym [of "w1 ! i"] min.commute min.left_commute)
qed

lemma cell_nonneg: "0 \<le> cell w1 w2 i j"
  by (induction w1 w2 i j rule: cell.induct) (simp_all add: substitution_cost_nonneg)

lemma confusion_distance_sym: "confusion_distance a b = confusion_distance b a"
  unfolding confusion_distance_cell [of a b] confusion_distance_cell [of b a] cell_sym [of a b]
  by (auto simp: max.commute abs_minus_commute)

lemma confusion_distance_nonneg: "0 \<le> confusion_distance a b"
  by (simp add: confusion_distance_cell cell_nonneg)

text \<open>
  C4.  \<open>confusion_similarity\<close> is reflexive and symmetric, and its value lies between 0 and
  100, for all strings \<open>a\<close> and \<open>b\<close>.
\<close>

theorem confusion_similarity_reflexive_symmetric_bounded:
  "confusion_similarity a a = 100 \<and>
   confusion_similarity a b = confusion_similarity b a \<and>
   0 \<le> confusion_similarity a b \<and> confusion_similarity a b \<le> 100"
proof -
  have sym: "confusion_similarity a b = confusion_similarity b a"
    unfolding confusion_similarity_def confusion_distance_sym [of a b]
    by (auto simp: max.commute)
  have "confusion_distance a b / real (max (length a) (length b)) \<ge> 0"
    by (simp add: confusion_distance_nonneg)
  then have "confusion_similarity a b \<le> 100"
    by (simp add: confusion_similarity_def)
  moreover have "0 \<le> confusion_similarity a b"
    by (simp add: confusion_similarity_def)
  ultimately show ?thesis
    using sym by (simp add: confusion_similarity_def)
qed

section \<open>Context scores\<close>

text \<open>
  C8.  When the context model is empty (\<open>total_bigrams\<close> is zero), or when both neighbour
  words are absent (\<open>None\<close> or empty), the context score of any candidate is exactly the
  neutral value 50; this holds for \<open>get_context_score\<close> of the enhanced post-processor and
  for \<open>get_bigram_score\<close> of the context-aware post-processor, whatever \<open>prev_prev_word\<close> is.
\<close>

theorem neutral_context_score:
  "(total_bigrams P = 0 \<or> (\<not> truthy prev_word \<and> \<not> truthy next_word)
      \<longrightarrow> get_context_score P prev_word word next_word = 50) \<and>
   (cx_total_bigrams C = 0 \<or> (\<not> truthy prev_word \<and> \<not> truthy next_word)
      \<longrightarrow> get_bigram_score wordchar C prev_word word next_word prev_prev_word = 50)"
  by (auto simp: get_context_score_def prev_block_def next_block_def
                 get_bigram_score_def cx_prev_block_def cx_next_block_def cx_trigram_block_def)

text \<open>
  A model with one bigram and one trigram, and a candidate without neighbours.
\<close>

theorem neutral_context_score_witness:
  "(total_bigrams (new_processor\<lparr>bigrams := [([1705, 1607], [([1583, 1585], 5)])], total_bigrams := 5\<rparr>) = 0
      \<or> (\<not> truthy None \<and> \<not> truthy (Some []))) \<and>
   (cx_total_bigrams \<lparr>cx_min_word_length = 2, cx_bigrams = [([1705, 1607], [([1583, 1585], 5)])],
        cx_trigrams = [([1705, 1607, 124, 1583, 1585], [([1705, 1607], 1)])],
        cx_total_bigrams = 5, cx_total_trigrams = 1\<rparr> = 0
      \<or> (\<not> truthy None \<and> \<not> truthy (Some []))) \<and>
   get_context_score (new_processor\<lparr>bigrams := [([1705, 1607], [([1583, 1585], 5)])], total_bigrams := 5\<rparr>)
      None [1583, 1585] (Some []) = 50 \<and>
   get_bigram_score (\<lambda>c. False)
      \<lparr>cx_min_word_length = 2, cx_bigrams = [([1705, 1607], [([1583, 1585], 5)])],
        cx_trigrams = [([1705, 1607, 124, 1583, 1585], [([1705, 1607], 1)])],
        cx_total_bigrams = 5, cx_total_trigrams = 1\<rparr>
      None [1583, 1585] (Some []) (Some [1705, 1607]) = 50"
  using neutral_context_score
    [of "new_processor\<lparr>bigrams := [([1705, 1607], [([1583, 1585], 5)])], total_bigrams := 5\<rparr>"
        None "Some []"
        "[1583, 1585]"
        "\<lparr>cx_min_word_length = 2, cx_bigrams = [([1705, 1607], [([1583, 1585], 5)])],
          cx_trigrams = [([1705, 1607, 124, 1583, 1585], [([1705, 1607], 1)])],
          cx_total_bigrams = 5, cx_total_trigrams = 1\<rparr>"
        "\<lambda>c. False" "Some [1705, 1607]"]
  by simp

section \<open>The word-frequency bonus\<close>



section \<open>Correcting one word\<close>

lemma correct_word_in_dictionary:
  "word \<in> dictionary P \<Longrightarrow> correct_word R P word confs prev_word next_word = (word, False, None)"
  by (simp add: correct_word_def)

lemma find_candidates_no_dict:
  "dictionary P = {} \<Longrightarrow>
   find_candidates R P word confs n = [(word, 100, [''source'' \<mapsto> PStr (ascii ''no_dict'')])]"
  by (simp add: find_candidates_def)

lemma correct_word_no_dict:
  assumes "dictionary P = {}"
  shows "correct_word R P word confs prev_word next_word = (word, False, None)"
  by (simp add: correct_word_def find_candidates_no_dict [OF assms])

text \<open>
  C2 (as amended).  With an empty dictionary, \<open>correct_word\<close> returns \<open>(word, False, None)\<close>
  for every word, confidence list and pair of neighbours; the function is total on these
  inputs, no branch of it raises.  The triple \<open>(word, 100.0, {'source': 'no_dict'})\<close> is the
  single candidate that \<open>find_candidates\<close> returns; \<open>correct_word\<close> drops its debug
  information because the word was not corrected.
\<close>

theorem correct_word_empty_dictionary:
  "dictionary P = {} \<Longrightarrow>
   correct_word R P word confs prev_word next_word = (word, False, None) \<and>
   find_candidates R P word confs n = [(word, 100, [''source'' \<mapsto> PStr (ascii ''no_dict'')])]"
  by (simp add: correct_word_no_dict find_candidates_no_dict)

theorem correct_word_empty_dictionary_witness:
  "dictionary new_processor = {} \<and>
   correct_word plain_runtime new_processor [1705, 1607] (Some [0.9, 0.4]) None (Some [1583, 1585])
     = ([1705, 1607], False, None) \<and>
   find_candidates plain_runtime new_processor [1705, 1607] (Some [0.9, 0.4]) 10
     = [([1705, 1607], 100, [''source'' \<mapsto> PStr (ascii ''no_dict'')])]"
proof -
  have e: "dictionary new_processor = {}"
    by (simp add: new_processor_def)
  from correct_word_empty_dictionary [OF e] e show ?thesis by simp
qed

text \<open>
  C2 as stated fails: the third component of the result is \<open>None\<close>, not the dictionary
  \<open>{'source': 'no_dict'}\<close>.
\<close>

theorem correct_word_no_dict_counterexample:
  "dictionary new_processor = {} \<and>
   correct_word plain_runtime new_processor [1705, 1607] None None None
     \<noteq> ([1705, 1607], False, Some [''source'' \<mapsto> PStr (ascii ''no_dict'')])"
  by (simp add: correct_word_no_dict new_processor_def)

section \<open>Processing a text\<close>

lemma split_from_word:
  "\<forall>c\<in>set w. \<not> is_space c \<Longrightarrow> split_from cur (w @ rest) = split_from (cur @ w) rest"
  by (induction w arbitrary: cur) simp_all

lemma is_space_32: "is_space 32"
  by (simp add: is_space_def)

lemma str_split_join:
  "\<forall>w\<in>set ws. w \<noteq> [] \<and> (\<forall>c\<in>set w. \<not> is_space c) \<Longrightarrow> str_split (str_join [32] ws) = ws"
proof (induction "[32::nat]" ws rule: str_join.induct)
  case 1
  show ?case by (simp add: str_split_def)
next
  case (2 w)
  then have "split_from [] (w @ []) = split_from ([] @ w) []"
    by (intro split_from_word) simp
  with 2 show ?case by (simp add: str_split_def)
next
  case (3 w v ws)
  then have IH: "split_from [] (str_join [32] (v # ws)) = v # ws"
    by (simp add: str_split_def)
  from 3 have "split_from [] (w @ [32] @ str_join [32] (v # ws))
      = split_from ([] @ w) ([32] @ str_join [32] (v # ws))"
    by (intro split_from_word) simp
  with 3 IH show ?case
    by (simp add: str_split_def is_space_32)
qed

lemma text_result_in_dictionary:
  assumes "\<forall>w\<in>set words. w \<in> dictionary P" "i < length words"
  shows "text_result_at R P words i = (words ! i, False, None)"
  using assms by (simp add: text_result_at_def correct_word_in_dictionary)

lemma process_text_in_dictionary:
  assumes "\<forall>w\<in>set (str_split text). w \<in> dictionary P"
  shows "process_text R P text = (str_join [32] (str_split text), [])"
proof -
  have "map (\<lambda>i. fst (text_result_at R P (str_split text) i)) [0..<length (str_split text)]
      = map (\<lambda>i. str_split text ! i) [0..<length (str_split text)]"
    by (rule map_cong) (simp_all add: text_result_in_dictionary [OF assms])
  moreover have "concat (map (\<lambda>i. log_entry [''original'' \<mapsto> PStr (str_split text ! i)]
                          (text_result_at R P (str_split text) i)) [0..<length (str_split text)]) = []"
    by (simp add: text_result_in_dictionary [OF assms])
  ultimately show ?thesis
    by (simp add: process_text_def map_nth)
qed

text \<open>
  C1 (as amended).  For every text whose whitespace-separated words are each members of
  the dictionary, \<open>process_text\<close> returns the words joined by single spaces and an empty
  correction list.  The result is the text itself when the text consists of non-empty
  words without whitespace characters, separated by one space each, with no leading or
  trailing whitespace.
\<close>

theorem process_text_dictionary_words:
  assumes "\<forall>w\<in>set (str_split text). w \<in> dictionary P"
  shows "process_text R P text = (str_join [32] (str_split text), []) \<and>
         (text = str_join [32] ws \<and> (\<forall>w\<in>set ws. w \<noteq> [] \<and> (\<forall>c\<in>set w. \<not> is_space c))
            \<longrightarrow> process_text R P text = (text, []))"
  using process_text_in_dictionary [OF assms] by (auto simp: str_split_join)

theorem process_text_dictionary_words_witness:
  "set (str_split [1705, 1607, 32, 1583, 1585])
     \<subseteq> dictionary (new_processor\<lparr>dictionary := {[1705, 1607], [1583, 1585]}\<rparr>) \<and>
   [1705, 1607, 32, 1583, 1585] = str_join [32] [[1705, 1607], [1583, 1585]] \<and>
   list_all (\<lambda>w. w \<noteq> [] \<and> list_all (\<lambda>c. \<not> is_space c) w) [[1705, 1607], [1583, 1585]] \<and>
   process_text plain_runtime (new_processor\<lparr>dictionary := {[1705, 1607], [1583, 1585]}\<rparr>)
      [1705, 1607, 32, 1583, 1585] = ([1705, 1607, 32, 1583, 1585], [])"
proof -
  have s: "str_split [1705, 1607, 32, 1583, 1585] = [[1705, 1607], [1583, 1585]]"
    by (simp add: str_split_def is_space_def)
  have d: "\<forall>w\<in>set (str_split [1705, 1607, 32, 1583, 1585]).
       w \<in> dictionary (new_processor\<lparr>dictionary := {[1705, 1607], [1583, 1585]}\<rparr>)"
    by (simp add: s)
  have j: "[1705, 1607, 32, 1583, 1585] = str_join [32] [[1705, 1607], [1583, 1585]]"
    by simp
  have n: "\<forall>w\<in>set [[1705, 1607], [1583, 1585 :: nat]]. w \<noteq> [] \<and> (\<forall>c\<in>set w. \<not> is_space c)"
    by (simp add: is_space_def)
  have r: "process_text plain_runtime (new_processor\<lparr>dictionary := {[1705, 1607], [1583, 1585]}\<rparr>)
      [1705, 1607, 32, 1583, 1585] = ([1705, 1607, 32, 1583, 1585], [])"
    by (rule process_text_dictionary_words
          [OF d, of plain_runtime "[[1705, 1607], [1583, 1585]]", THEN conjunct2, rule_format,
           OF conjI [OF j n]])
  have l: "list_all (\<lambda>w. w \<noteq> [] \<and> list_all (\<lambda>c. \<not> is_space c) w) [[1705, 1607], [1583, 1585]]"
    by (simp add: is_space_def)
  have sub: "set (str_split [1705, 1607, 32, 1583, 1585])
     \<subseteq> dictionary (new_processor\<lparr>dictionary := {[1705, 1607], [1583, 1585]}\<rparr>)"
    unfolding s by simp
  show ?thesis
    by (intro conjI sub j l r)
qed

text \<open>
  C1 as stated fails on a text with two spaces between dictionary words: the result has
  one space there.
\<close>

theorem process_text_not_identity_counterexample:
  "set (str_split [1705, 1607, 32, 32, 1705, 1607]) \<subseteq> dictionary (new_processor\<lparr>dictionary := {[1705, 1607]}\<rparr>) \<and>
   process_text plain_runtime (new_processor\<lparr>dictionary := {[1705, 1607]}\<rparr>) [1705, 1607, 32, 32, 1705, 1607]
     = ([1705, 1607, 32, 1705, 1607], []) \<and>
   [1705, 1607, 32, 1705, 1607] \<noteq> [1705, 1607, 32, 32, 1705, 1607 :: nat]"
proof -
  have s: "str_split [1705, 1607, 32, 32, 1705, 1607] = [[1705, 1607], [1705, 1607]]"
    by (simp add: str_split_def is_space_def)
  have "\<forall>w\<in>set (str_split [1705, 1607, 32, 32, 1705, 1607]).
          w \<in> dictionary (new_processor\<lparr>dictionary := {[1705, 1607]}\<rparr>)"
    by (simp add: s)
  from process_text_in_dictionary [OF this] show ?thesis
    by (simp add: s)
qed

text \<open>
  C7.  Whenever the number of per-word confidence arrays differs from the number of
  whitespace-separated words of the text, \<open>process_with_confidence\<close> returns exactly the
  result of \<open>process_text\<close> on that text.
\<close>

theorem process_with_confidence_mismatch:
  "length char_confidences \<noteq> length (str_split text) \<Longrightarrow>
   process_with_confidence R P text char_confidences = process_text R P text"
  by (simp add: process_with_confidence_def)

theorem process_with_confidence_mismatch_witness:
  "length [[0.9, 0.5 :: real]] \<noteq> length (str_split [1705, 1607, 32, 1583, 1585]) \<and>
   process_with_confidence plain_runtime new_processor [1705, 1607, 32, 1583, 1585] [[0.9, 0.5]]
     = process_text plain_runtime new_processor [1705, 1607, 32, 1583, 1585]"
proof -
  have "length [[0.9, 0.5 :: real]] \<noteq> length (str_split [1705, 1607, 32, 1583, 1585])"
    by (simp add: str_split_def is_space_def)
  from this process_with_confidence_mismatch [OF this] show ?thesis by simp
qed

section \<open>Confusion variants\<close>

lemma set_set_add: "set (set_add x s) = insert x (set s)"
  by (auto simp: set_add_def)

lemma set_fold_set_add:
  "set (fold (\<lambda>r vs'. set_add (f r) vs') rs vs) = set vs \<union> f ` set rs"
  by (induction rs arbitrary: vs) (auto simp: set_set_add)

lemma set_fold_positions:
  "set (fold (\<lambda>i vs. fold (\<lambda>r vs'. set_add (substitute word i r) vs') (get_list table [word ! i]) vs) ps variants)
     = set variants \<union> (\<Union>i\<in>set ps. substitute word i ` set (get_list table [word ! i]))"
  by (induction ps arbitrary: variants) (auto simp: set_fold_set_add)

lemma set_add_substitutions:
  "set (add_substitutions table word variants)
     = set variants \<union> (\<Union>i\<in>{0..<length word}. substitute word i ` set (get_list table [word ! i]))"
  by (simp add: add_substitutions_def set_fold_positions)

lemma set_variant_set:
  "set (variant_set word)
     = {word} \<union> (\<Union>i\<in>{0..<length word}. substitute word i ` set (get_list CONFUSION_MATRIX [word ! i]))
              \<union> (\<Union>i\<in>{0..<length word}. substitute word i ` set (get_list OCR_MIGHT_PRODUCE [word ! i]))"
  by (simp add: variant_set_def set_add_substitutions)

lemma length_slice_to: "0 \<le> n \<Longrightarrow> length (slice_to n xs) \<le> nat n"
  by (simp add: slice_to_def)

lemma set_slice_to: "set (slice_to n xs) \<subseteq> set xs"
  by (auto simp: slice_to_def dest: in_set_takeD)

lemma slice_to_all: "int (length xs) \<le> n \<Longrightarrow> slice_to n xs = xs"
  by (simp add: slice_to_def)

text \<open>
  C6 (as amended).  The set of variants built by \<open>generate_confusion_variants\<close>, before the
  truncation, contains the unmodified word and, for every position \<open>i\<close> of the word and
  every string \<open>r\<close> that the confusion table lists for the character at \<open>i\<close>, the variant
  with that character replaced by \<open>r\<close>.  The returned list holds the first \<open>max_variants\<close>
  elements of that set in its enumeration order: it has at most \<open>max_variants\<close> elements
  (for \<open>max_variants\<close> not negative), all of them variants, and it contains the word and
  every such variant when the set has at most \<open>max_variants\<close> elements.
\<close>

theorem variants_before_truncation:
  "word \<in> set (variant_set word) \<and>
   (i < length word \<and> r \<in> set (get_list CONFUSION_MATRIX [word ! i])
      \<longrightarrow> substitute word i r \<in> set (variant_set word)) \<and>
   (0 \<le> max_variants \<longrightarrow> length (generate_confusion_variants R word max_variants) \<le> nat max_variants) \<and>
   (set (set_order R (variant_set word)) = set (variant_set word) \<longrightarrow>
      set (generate_confusion_variants R word max_variants) \<subseteq> set (variant_set word) \<and>
      (int (length (set_order R (variant_set word))) \<le> max_variants \<longrightarrow>
         set (generate_confusion_variants R word max_variants) = set (variant_set word)))"
proof -
  have "set (generate_confusion_variants R word max_variants) \<subseteq> set (set_order R (variant_set word))"
    unfolding generate_confusion_variants_def by (rule set_slice_to)
  moreover have "generate_confusion_variants R word max_variants = set_order R (variant_set word)"
    if "int (length (set_order R (variant_set word))) \<le> max_variants"
    unfolding generate_confusion_variants_def using that by (rule slice_to_all)
  moreover have "length (generate_confusion_variants R word max_variants) \<le> nat max_variants"
    if "0 \<le> max_variants"
    unfolding generate_confusion_variants_def using that by (rule length_slice_to)
  moreover have "word \<in> set (variant_set word)"
    by (simp add: set_variant_set)
  moreover have "substitute word i r \<in> set (variant_set word)"
    if "i < length word" "r \<in> set (get_list CONFUSION_MATRIX [word ! i])"
    unfolding set_variant_set using that by auto
  ultimately show ?thesis by auto
qed

text \<open>The Arabic kaf (1603) alone: its variants are itself, the Persian kaf and gaf.\<close>

lemma omp_1603: "get_list OCR_MIGHT_PRODUCE [1603] = [[1705], [1711], [1603]]"
  by (simp add: OCR_MIGHT_PRODUCE_def build_reverse_def add_reverse_entries_def
        CONFUSION_MATRIX_def get_list_def set_add_def)


lemma cm_1603: "get_list CONFUSION_MATRIX [1603] = [[1705], [1711]]"
  by (simp add: CONFUSION_MATRIX_def get_list_def)

lemma variant_set_1603: "variant_set [1603] = [[1603], [1705], [1711]]"
  by (simp add: variant_set_def add_substitutions_def cm_1603 omp_1603 substitute_def set_add_def)

theorem variants_before_truncation_witness:
  "0 < length [1603 :: nat] \<and> [1705] \<in> set (get_list CONFUSION_MATRIX [[1603] ! 0]) \<and> (0 :: int) \<le> 20 \<and>
   set (set_order plain_runtime (variant_set [1603])) = set (variant_set [1603]) \<and>
   int (length (set_order plain_runtime (variant_set [1603]))) \<le> 20 \<and>
   [1603] \<in> set (generate_confusion_variants plain_runtime [1603] 20) \<and>
   substitute [1603] 0 [1705] \<in> set (generate_confusion_variants plain_runtime [1603] 20) \<and>
   length (generate_confusion_variants plain_runtime [1603] 20) \<le> nat 20"
proof -
  have h1: "0 < length [1603 :: nat] \<and> [1705] \<in> set (get_list CONFUSION_MATRIX [[1603] ! 0])"
    by (simp add: cm_1603)
  have h2: "(0 :: int) \<le> 20" by simp
  have h3: "set (set_order plain_runtime (variant_set [1603])) = set (variant_set [1603])"
    by (simp add: plain_runtime_def)
  have h4: "int (length (set_order plain_runtime (variant_set [1603]))) \<le> 20"
    by (simp add: plain_runtime_def variant_set_1603)
  note t = variants_before_truncation [of "[1603]" 0 "[1705]" 20 plain_runtime]
  from t h3 h4 have eq: "set (generate_confusion_variants plain_runtime [1603] 20) = set (variant_set [1603])"
    by blast
  from t h1 have "[1603] \<in> set (variant_set [1603])"
    and "substitute [1603] 0 [1705] \<in> set (variant_set [1603])"
    by blast+
  moreover from t h2 have "length (generate_confusion_variants plain_runtime [1603] 20) \<le> nat 20"
    by blast
  ultimately show ?thesis
    using h1 h2 h3 h4 unfolding eq by (intro conjI) simp_all
qed

text \<open>
  C6 as stated fails for the bound 0: the returned list is empty and does not contain the
  word.
\<close>

theorem variants_truncated_to_nothing_counterexample:
  "[1603] \<notin> set (generate_confusion_variants plain_runtime [1603] 0)"
  by (simp add: generate_confusion_variants_def slice_to_def)

section \<open>Merging corpus models\<close>


lemma total_of_counter_add: "total_of (counter_add k v d) = total_of d + v"
  by (induction d) (auto simp: total_of_def)

lemma map_fst_counter_add:
  "map fst (counter_add k v d) = (if k \<in> fst ` set d then map fst d else map fst d @ [k])"
  by (induction d) (force+)

lemma distinct_counter_add: "distinct_keys d \<Longrightarrow> distinct_keys (counter_add k v d)"
  by (simp add: distinct_keys_def map_fst_counter_add)



lemma sum_counter_add: "sum_list (map snd (counter_add k v d)) = sum_list (map snd d) + v"
  using total_of_counter_add [of k v d] by (simp add: total_of_def)

lemma total2_nested_add: "total2 (nested_add k1 k2 v d) = total2 d + v"
  by (induction d) (auto simp: total2_def total_of_def sum_counter_add)

lemma map_fst_nested_add:
  "map fst (nested_add k1 k2 v d) = (if k1 \<in> fst ` set d then map fst d else map fst d @ [k1])"
  by (induction d) (force+)

lemma distinct_keys_single: "distinct_keys [(k, v)]"
  by (simp add: distinct_keys_def)

lemma inner_distinct_nested_add:
  "list_all (\<lambda>e. distinct_keys (snd e)) d \<Longrightarrow>
   list_all (\<lambda>e. distinct_keys (snd e)) (nested_add k1 k2 v d)"
  by (induction d) (auto simp: distinct_counter_add distinct_keys_single)

lemma distinct_nested_add:
  "distinct_keys d \<Longrightarrow> distinct_keys (nested_add k1 k2 v d)"
  by (simp add: distinct_keys_def map_fst_nested_add)



text \<open>The word loop.\<close>

lemma fold_merge_word:
  "cp_word_freq (fold merge_word xs cp) = fold (\<lambda>e. counter_add (fst e) (snd e)) xs (cp_word_freq cp) \<and>
   cp_total_words (fold merge_word xs cp) = cp_total_words cp + total_of xs \<and>
   cp_bigrams (fold merge_word xs cp) = cp_bigrams cp \<and>
   cp_trigrams (fold merge_word xs cp) = cp_trigrams cp \<and>
   cp_total_bigrams (fold merge_word xs cp) = cp_total_bigrams cp \<and>
   cp_total_trigrams (fold merge_word xs cp) = cp_total_trigrams cp \<and>
   cp_files_processed (fold merge_word xs cp) = cp_files_processed cp"
proof (induction xs arbitrary: cp)
  case Nil
  show ?case by (simp add: total_of_def)
next
  case (Cons e xs)
  obtain k v where e: "e = (k, v)" by (cases e)
  show ?case
    by (simp add: e Cons.IH total_of_def)
qed


lemma total_of_fold_counter_add:
  "total_of (fold (\<lambda>e. counter_add (fst e) (snd e)) xs d) = total_of d + total_of xs"
  by (induction xs arbitrary: d) (auto simp: sum_counter_add total_of_def)

lemma distinct_fold_counter_add:
  "distinct_keys d \<Longrightarrow> distinct_keys (fold (\<lambda>e. counter_add (fst e) (snd e)) xs d)"
  by (induction xs arbitrary: d) (auto simp: distinct_counter_add)



lemma total2_fold_nested_add:
  "total2 (fold (\<lambda>e. nested_add w1 (fst e) (snd e)) f d) = total2 d + total_of f"
  by (induction f arbitrary: d) (auto simp: total2_nested_add total_of_def)

lemma distinct_fold_nested_add:
  "distinct_keys d \<Longrightarrow> list_all (\<lambda>e. distinct_keys (snd e)) d \<Longrightarrow>
   distinct_keys (fold (\<lambda>e. nested_add w1 (fst e) (snd e)) f d) \<and>
   list_all (\<lambda>e. distinct_keys (snd e)) (fold (\<lambda>e. nested_add w1 (fst e) (snd e)) f d)"
  by (induction f arbitrary: d) (auto simp: distinct_nested_add inner_distinct_nested_add)


lemma total2_fold_rows:
  "total2 (fold (\<lambda>r. fold (\<lambda>e. nested_add (fst r) (fst e) (snd e)) (snd r)) rows d)
     = total2 d + total2 rows"
  by (induction rows arbitrary: d) (auto simp: total2_fold_nested_add [unfolded total2_def] total2_def)

lemma distinct_fold_rows:
  "distinct_keys d \<Longrightarrow> list_all (\<lambda>e. distinct_keys (snd e)) d \<Longrightarrow>
   distinct_keys (fold (\<lambda>r. fold (\<lambda>e. nested_add (fst r) (fst e) (snd e)) (snd r)) rows d) \<and>
   list_all (\<lambda>e. distinct_keys (snd e))
     (fold (\<lambda>r. fold (\<lambda>e. nested_add (fst r) (fst e) (snd e)) (snd r)) rows d)"
proof (induction rows arbitrary: d)
  case Nil
  then show ?case by simp
next
  case (Cons r rows)
  from distinct_fold_nested_add [OF Cons.prems, of "fst r" "snd r"] Cons.IH
  show ?case by simp
qed











text \<open>Every processor the program can build keeps distinct keys and running totals.\<close>

lemma cp_inv_new: "cp_inv new_corpus_processor"
  by (simp add: cp_inv_def snapshot_ok_def snapshot_totals_ok_def save_model_def
        new_corpus_processor_def distinct_keys_def total_of_def total2_def)

lemma cp_inv_merge_word: "cp_inv cp \<Longrightarrow> cp_inv (merge_word (w, v) cp)"
  by (simp add: cp_inv_def snapshot_ok_def snapshot_totals_ok_def save_model_def
        distinct_counter_add total_of_counter_add)

lemma cp_inv_merge_bigram: "cp_inv cp \<Longrightarrow> cp_inv (merge_bigram w1 (w2, v) cp)"
  by (simp add: cp_inv_def snapshot_ok_def snapshot_totals_ok_def save_model_def
        distinct_nested_add inner_distinct_nested_add total2_nested_add)

lemma cp_inv_merge_trigram: "cp_inv cp \<Longrightarrow> cp_inv (merge_trigram key (w3, v) cp)"
  by (simp add: cp_inv_def snapshot_ok_def snapshot_totals_ok_def save_model_def
        distinct_nested_add inner_distinct_nested_add total2_nested_add)

lemma cp_inv_fold: "(\<And>x c. cp_inv c \<Longrightarrow> cp_inv (f x c)) \<Longrightarrow> cp_inv cp \<Longrightarrow> cp_inv (fold f xs cp)"
  by (induction xs arbitrary: cp) simp_all

lemma cp_inv_merge: "cp_inv cp \<Longrightarrow> cp_inv (merge_with_existing cp existing)"
proof (cases existing)
  case None
  then show "cp_inv cp \<Longrightarrow> ?thesis" by simp
next
  case (Some data)
  assume inv: "cp_inv cp"
  have w: "cp_inv (merge_word e c)" if "cp_inv c" for e c
    using that cp_inv_merge_word [of c "fst e" "snd e"] by simp
  have b: "cp_inv (merge_bigram_row r c)" if "cp_inv c" for r c
  proof -
    have "cp_inv (merge_bigram (fst r) e c')" if "cp_inv c'" for e c'
      using that cp_inv_merge_bigram [of c' "fst r" "fst e" "snd e"] by simp
    from cp_inv_fold [of "merge_bigram (fst r)", OF this \<open>cp_inv c\<close>, of "snd r"]
    show ?thesis by (cases r) simp
  qed
  have t: "cp_inv (merge_trigram_row r c)" if "cp_inv c" for r c
  proof -
    have "cp_inv (merge_trigram (fst r) e c')" if "cp_inv c'" for e c'
      using that cp_inv_merge_trigram [of c' "fst r" "fst e" "snd e"] by simp
    from cp_inv_fold [of "merge_trigram (fst r)", OF this \<open>cp_inv c\<close>, of "snd r"]
    show ?thesis by (cases r) simp
  qed
  show ?thesis
    unfolding Some merge_with_existing.simps
    by (intro cp_inv_fold t b w inv)
qed

lemma cp_inv_process_text: "cp_inv cp \<Longrightarrow> cp_inv (cp_process_text wordchar digit text cp)"
proof -
  assume inv: "cp_inv cp"
  have w: "cp_inv (count_word x c)" if "cp_inv c" for x c
    using cp_inv_merge_word [OF that, of x 1] by (simp add: count_word_def)
  have b: "cp_inv (count_bigram n i c)" if "cp_inv c" for n i c
    using cp_inv_merge_bigram [OF that, of "n ! i" "n ! (i + 1)" 1] by (simp add: count_bigram_def)
  have t: "cp_inv (count_trigram n i c)" if "cp_inv c" for n i c
    using cp_inv_merge_trigram [OF that, of "n ! i @ [124] @ n ! (i + 1)" "n ! (i + 2)" 1]
    by (simp add: count_trigram_def)
  show ?thesis
    unfolding cp_process_text_def count_ngrams_def
    by (intro cp_inv_fold t b w inv)
qed

lemma built_inv: "built wordchar digit cp \<Longrightarrow> cp_inv cp"
proof (induction rule: built.induct)
  case built_new
  show ?case by (rule cp_inv_new)
next
  case (built_text cp t)
  then show ?case by (intro cp_inv_process_text)
next
  case (built_merge cp cp')
  then show ?case by (intro cp_inv_merge)
qed



section \<open>Finding candidates\<close>























end
